theory Spec2Isabelle
  imports Main "HOL-Library.Word"
begin

section \<open>Data of the run command\<close>

text \<open>
  The embedding follows \<^verbatim>\<open>src/options/run.go\<close>, which holds the option structs
  (package \<^verbatim>\<open>options\<close>) and the run command (package \<^verbatim>\<open>cmd\<close>: \<^verbatim>\<open>runRun\<close> and
  \<^verbatim>\<open>storeInArchivist\<close>).

  Go's \<^verbatim>\<open>error\<close> values are modelled by their construction: \<open>Errorf m\<close> is
  \<^verbatim>\<open>fmt.Errorf(m)\<close> with no wrapped cause, \<open>Wrapf m e\<close> is \<^verbatim>\<open>fmt.Errorf(m + ": %w", e)\<close>,
  and \<open>Opaque m\<close> is an error made by a collaborator outside this file (key loading,
  the attestation run, JSON marshalling, the file system, Rekor, gRPC).
\<close>

type_synonym byte = "8 word"

datatype error = Errorf string | Wrapf string error | Opaque string

text \<open>
  \<^verbatim>\<open>ArchivistOptions\<close> is declared with the fields \<^verbatim>\<open>Enable\<close> and \<^verbatim>\<open>Url\<close>; the two
  functions of the run command read the endpoint as \<^verbatim>\<open>Server\<close>. The record has the
  flag and one endpoint field, under the name the functions read.
\<close>

record ArchivistOptions =
  Enable :: bool
  Server :: string

text \<open>
  Modelled from the spec: \<^verbatim>\<open>KeyOptions\<close>, the signer and the verifier are declared
  outside the source file. \<open>KeyOptions\<close> is the list of configured signer sources, a
  signer and a verifier are opaque identities.
\<close>

datatype KeyOptions = KeySources "string list"

datatype signer = Signer string

datatype verifier = Verifier string

text \<open>
  \<^verbatim>\<open>RunOptions\<close> as declared, with the field \<^verbatim>\<open>RekorServer\<close> that \<^verbatim>\<open>runRun\<close> reads.
\<close>

record RunOptions =
  KeyOptions :: KeyOptions
  ArchivistOptions :: ArchivistOptions
  WorkingDir :: string
  Attestations :: "string list"
  OutFilePath :: string
  StepName :: string
  Tracing :: bool
  TimestampServers :: "string list"
  RekorServer :: string

text \<open>
  The signed envelope that \<^verbatim>\<open>witness.Run\<close> returns inside its result: a payload, its
  type, and the signatures with their key references.
\<close>

datatype envelope =
  Envelope (payload: "byte list") (payloadType: string) (signatures: "(string \<times> byte list) list")

record RunResult =
  SignedEnvelope :: envelope

section \<open>Collaborators and observable effects\<close>

text \<open>
  Every call that leaves the file is a field of \<open>world\<close>, giving the outcome of that
  call on its arguments (\<^verbatim>\<open>loadSigners\<close> and \<^verbatim>\<open>loadOutfile\<close> are functions of the
  command package that the file does not hold; the others belong to libraries); a Go pair \<^verbatim>\<open>(value, err)\<close> is a sum with \<open>Inl\<close> the error, a
  lone \<^verbatim>\<open>err\<close> is an \<open>error option\<close>.
  \<^item> \<open>outWrite\<close> is \<^verbatim>\<open>out.Write\<close>: \<open>None\<close> when every byte was written, \<open>Some (n, e)\<close>
    when it failed with \<open>e\<close> after \<open>n\<close> bytes.
  \<^item> \<open>clientStore\<close> is the error of \<^verbatim>\<open>client.Store(ctx)\<close>, which opens the stream.
  \<^item> \<open>streamSend sent c\<close> is the outcome of \<^verbatim>\<open>stream.Send\<close> on the frame \<open>c\<close> when the
    frames \<open>sent\<close> were handed to the stream before; \<open>streamCloseAndRecv sent\<close> is
    the outcome of \<^verbatim>\<open>stream.CloseAndRecv\<close> after those frames.
\<close>

record world =
  loadSigners :: "KeyOptions \<Rightarrow> signer list \<times> error list"
  loadOutfile :: "string \<Rightarrow> error option"
  outWrite :: "byte list \<Rightarrow> (nat \<times> error) option"
  witnessRun :: "string \<Rightarrow> signer \<Rightarrow> bool \<Rightarrow> string list \<Rightarrow> string list \<Rightarrow> string
    \<Rightarrow> error + RunResult"
  jsonMarshal :: "envelope \<Rightarrow> error + byte list"
  signerVerifier :: "signer \<Rightarrow> error + verifier"
  verifierBytes :: "verifier \<Rightarrow> error + byte list"
  rekorNew :: "string \<Rightarrow> error option"
  rekorStoreArtifact :: "string \<Rightarrow> byte list \<Rightarrow> byte list \<Rightarrow> error + string"
  grpcDial :: "string \<Rightarrow> error option"
  clientStore :: "error option"
  streamSend :: "byte list list \<Rightarrow> byte list \<Rightarrow> error option"
  streamCloseAndRecv :: "byte list list \<Rightarrow> error + string"

text \<open>
  The calls a run makes, in the order it makes them. \<open>OutWrite bs\<close> carries the bytes
  that reached the output sink, \<open>StreamSend c\<close> the frame handed to the stream.
\<close>

datatype event =
    LoadSigners KeyOptions
  | LogError error
  | LogErrorText string
  | LoadOutfile string
  | WitnessRun string signer bool "string list" "string list" string
  | JsonMarshal envelope
  | OutWrite "byte list"
  | OutClose
  | SignerVerifier signer
  | VerifierBytes verifier
  | RekorNew string
  | RekorStoreArtifact "byte list" "byte list"
  | LogInfoRekor string string
  | GrpcDial string
  | NewCollectorClient
  | ClientStore
  | StreamSend "byte list"
  | StreamCloseAndRecv
  | LogInfoArchivist string

section \<open>The chunked upload\<close>

definition chunkSize :: nat where
  "chunkSize = 64 * 1024"

text \<open>
  The loop of \<^verbatim>\<open>storeInArchivist\<close>:
  \<^verbatim>\<open>for curr := 0; curr < size; curr += chunkSize\<close>. The slice
  \<^verbatim>\<open>signedBytes[curr:]\<close> is \<open>drop curr\<close> and \<^verbatim>\<open>signedBytes[curr : curr+chunkSize]\<close> is
  \<open>take chunkSize\<close> of it; both are in range where the loop takes them. The loop
  returns the error of the first failing \<^verbatim>\<open>Send\<close>, with the frames handed to the
  stream so far. Go's \<^verbatim>\<open>int\<close> has 64 bits and a slice is shorter than
  \<open>2 ^ 63 - chunkSize\<close> bytes, so \<^verbatim>\<open>curr+chunkSize\<close> does not wrap and the index is a
  natural number.
\<close>

function sendLoop :: "world \<Rightarrow> byte list \<Rightarrow> nat \<Rightarrow> byte list list \<Rightarrow> error option \<times> byte list list"
  where
  "sendLoop w signedBytes cur sent =
     (if cur < length signedBytes then
        (let chunkBytes =
               (if cur + chunkSize \<ge> length signedBytes then drop cur signedBytes
                else take chunkSize (drop cur signedBytes))
         in case streamSend w sent chunkBytes of
              Some err \<Rightarrow> (Some err, sent @ [chunkBytes])
            | None \<Rightarrow> sendLoop w signedBytes (cur + chunkSize) (sent @ [chunkBytes]))
      else (None, sent))"
  by pat_completeness auto
termination
  by (relation "measure (\<lambda>(w, signedBytes, cur, sent). length signedBytes - cur)")
    (auto simp: chunkSize_def)

declare sendLoop.simps [simp del]

text \<open>
  \<^verbatim>\<open>storeInArchivist\<close>. The error of \<^verbatim>\<open>client.Store\<close> is bound to \<^verbatim>\<open>err\<close> and not
  examined before the loop; \<^verbatim>\<open>err\<close> is assigned again by \<^verbatim>\<open>CloseAndRecv\<close>.
\<close>

definition storeInArchivist ::
  "world \<Rightarrow> ArchivistOptions \<Rightarrow> byte list \<Rightarrow> (error + string) \<times> event list" where
  "storeInArchivist w opts signedBytes =
     (case grpcDial w (Server opts) of
        Some err \<Rightarrow> (Inl err, [GrpcDial (Server opts)])
      | None \<Rightarrow>
          (let opened = [GrpcDial (Server opts), NewCollectorClient, ClientStore];
               err = clientStore w
           in case sendLoop w signedBytes 0 [] of
                (Some err, sent) \<Rightarrow> (Inl err, opened @ map StreamSend sent)
              | (None, sent) \<Rightarrow>
                  (case streamCloseAndRecv w sent of
                     Inl err \<Rightarrow> (Inl err, opened @ map StreamSend sent @ [StreamCloseAndRecv])
                   | Inr gitoid \<Rightarrow>
                       (Inr gitoid, opened @ map StreamSend sent @ [StreamCloseAndRecv]))))"

section \<open>The run command\<close>

text \<open>
  The body of \<^verbatim>\<open>if rekorServer != ""\<close> in \<^verbatim>\<open>runRun\<close> (lines 152 to 174): the verifier of
  the signer, its bytes, the Rekor client, the submission. Each failure returns at once.
\<close>

definition runRun_rekor ::
  "world \<Rightarrow> string \<Rightarrow> signer \<Rightarrow> byte list \<Rightarrow> error option \<times> event list" where
  "runRun_rekor w rekorServer signer signedBytes =
     (case signerVerifier w signer of
        Inl err \<Rightarrow>
          (Some (Wrapf ''failed to get verifier from signer'' err), [SignerVerifier signer])
      | Inr verifier \<Rightarrow>
          (case verifierBytes w verifier of
             Inl err \<Rightarrow>
               (Some (Wrapf ''failed to get bytes from verifier'' err),
                [SignerVerifier signer, VerifierBytes verifier])
           | Inr pubKeyBytes \<Rightarrow>
               (case rekorNew w rekorServer of
                  Some err \<Rightarrow>
                    (Some (Wrapf ''failed to get initialize Rekor client'' err),
                     [SignerVerifier signer, VerifierBytes verifier, RekorNew rekorServer])
                | None \<Rightarrow>
                    (case rekorStoreArtifact w rekorServer signedBytes pubKeyBytes of
                       Inl err \<Rightarrow>
                         (Some (Wrapf ''failed to store artifact in rekor'' err),
                          [SignerVerifier signer, VerifierBytes verifier, RekorNew rekorServer,
                           RekorStoreArtifact signedBytes pubKeyBytes])
                     | Inr location \<Rightarrow>
                         (None,
                          [SignerVerifier signer, VerifierBytes verifier, RekorNew rekorServer,
                           RekorStoreArtifact signedBytes pubKeyBytes,
                           LogInfoRekor rekorServer location])))))"

text \<open>
  The end of \<^verbatim>\<open>runRun\<close> after the envelope is written (lines 151 to 184): the Rekor
  block when \<^verbatim>\<open>ro.RekorServer\<close> is not empty, then the Archivist upload when
  \<^verbatim>\<open>ro.ArchivistOptions.Server\<close> is not empty, then \<^verbatim>\<open>return nil\<close>.
\<close>

definition runRun_publish ::
  "world \<Rightarrow> RunOptions \<Rightarrow> signer \<Rightarrow> byte list \<Rightarrow> error option \<times> event list" where
  "runRun_publish w ro signer signedBytes =
     (case (if RekorServer ro \<noteq> [] then runRun_rekor w (RekorServer ro) signer signedBytes
            else (None, [])) of
        (Some err, logged) \<Rightarrow> (Some err, logged)
      | (None, logged) \<Rightarrow>
          (if Server (ArchivistOptions ro) \<noteq> [] then
             (case storeInArchivist w (ArchivistOptions ro) signedBytes of
                (Inl err, stored) \<Rightarrow>
                  (Some (Wrapf ''failed to store artifact in archivist'' err), logged @ stored)
              | (Inr gitoid, stored) \<Rightarrow> (None, logged @ stored @ [LogInfoArchivist gitoid]))
           else (None, logged)))"

text \<open>
  \<^verbatim>\<open>runRun\<close>. The deferred \<^verbatim>\<open>out.Close()\<close> runs on every return after the output file
  was opened: \<open>OutClose\<close> ends the calls of each of those branches.
\<close>

definition runRun :: "world \<Rightarrow> RunOptions \<Rightarrow> string list \<Rightarrow> error option \<times> event list" where
  "runRun w ro args =
     (case loadSigners w (KeyOptions ro) of
        (signers, errors) \<Rightarrow>
          if length errors > 0 then
            (Some (Errorf ''failed to load signers''),
             LoadSigners (KeyOptions ro) # map LogError errors)
          else if length signers > 1 then
            (Some (Errorf ''only one signer is supported''),
             [LoadSigners (KeyOptions ro), LogErrorText ''only one signer is supported''])
          else if length signers = 0 then
            (Some (Errorf ''no signers found''),
             [LoadSigners (KeyOptions ro), LogErrorText ''no signers found''])
          else
            (let signer = signers ! 0;
                 opened = [LoadSigners (KeyOptions ro), LoadOutfile (OutFilePath ro)];
                 ran = WitnessRun (StepName ro) signer (Tracing ro) args (Attestations ro)
                         (WorkingDir ro)
             in case loadOutfile w (OutFilePath ro) of
                  Some err \<Rightarrow>
                    (Some (Wrapf ''failed to open out file'' err), opened)
                | None \<Rightarrow>
                    (case witnessRun w (StepName ro) signer (Tracing ro) args (Attestations ro)
                            (WorkingDir ro) of
                       Inl err \<Rightarrow> (Some err, opened @ [ran, OutClose])
                     | Inr result \<Rightarrow>
                         (case jsonMarshal w (SignedEnvelope result) of
                            Inl err \<Rightarrow>
                              (Some (Wrapf ''failed to marshal envelope'' err),
                               opened @ [ran, JsonMarshal (SignedEnvelope result), OutClose])
                          | Inr signedBytes \<Rightarrow>
                              (case outWrite w signedBytes of
                                 Some (n, err) \<Rightarrow>
                                   (Some (Wrapf ''failed to write envelope to out file'' err),
                                    opened @ [ran, JsonMarshal (SignedEnvelope result),
                                      OutWrite (take n signedBytes), OutClose])
                               | None \<Rightarrow>
                                   (case runRun_publish w ro signer signedBytes of
                                      (res, published) \<Rightarrow>
                                        (res,
                                         opened @ [ran, JsonMarshal (SignedEnvelope result),
                                           OutWrite signedBytes] @ published @ [OutClose])))))))"

section \<open>Observations on the calls of a run\<close>

text \<open>The frames handed to the stream, read off the calls of a run.\<close>

fun framesSent :: "event list \<Rightarrow> byte list list" where
  "framesSent [] = []"
| "framesSent (StreamSend c # es) = c # framesSent es"
| "framesSent (e # es) = framesSent es"

text \<open>The bytes that reached the output sink: those of the writes, in order.\<close>

fun sinkContents :: "event list \<Rightarrow> byte list" where
  "sinkContents [] = []"
| "sinkContents (OutWrite bs # es) = bs @ sinkContents es"
| "sinkContents (e # es) = sinkContents es"

text \<open>The call of the attestation collaborator.\<close>

fun isWitnessRun :: "event \<Rightarrow> bool" where
  "isWitnessRun (WitnessRun step signer tracing args attestors dir) = True"
| "isWitnessRun e = False"

text \<open>The calls that reach the transparency log.\<close>

fun isRekorCall :: "event \<Rightarrow> bool" where
  "isRekorCall (RekorNew server) = True"
| "isRekorCall (RekorStoreArtifact signedBytes pubKeyBytes) = True"
| "isRekorCall e = False"

text \<open>The calls that reach the artifact store; \<^verbatim>\<open>grpc.Dial\<close> is the first of them.\<close>

fun isArchivistCall :: "event \<Rightarrow> bool" where
  "isArchivistCall (GrpcDial server) = True"
| "isArchivistCall NewCollectorClient = True"
| "isArchivistCall ClientStore = True"
| "isArchivistCall (StreamSend c) = True"
| "isArchivistCall StreamCloseAndRecv = True"
| "isArchivistCall e = False"

definition isNetworkCall :: "event \<Rightarrow> bool" where
  "isNetworkCall e = (isRekorCall e \<or> isArchivistCall e)"

text \<open>
  A run writes the envelope: one signer and no construction error, the output file
  opens, the attestation run returns a result whose envelope marshals to
  \<open>signedBytes\<close>, and the write of \<open>signedBytes\<close> succeeds.
\<close>

definition writesEnvelope :: "world \<Rightarrow> RunOptions \<Rightarrow> string list \<Rightarrow> signer \<Rightarrow> byte list \<Rightarrow> bool"
  where
  "writesEnvelope w ro args signer signedBytes =
     (loadSigners w (KeyOptions ro) = ([signer], []) \<and>
      loadOutfile w (OutFilePath ro) = None \<and>
      (case witnessRun w (StepName ro) signer (Tracing ro) args (Attestations ro)
              (WorkingDir ro) of
         Inl err \<Rightarrow> False
       | Inr result \<Rightarrow> jsonMarshal w (SignedEnvelope result) = Inr signedBytes) \<and>
      outWrite w signedBytes = None)"

text \<open>
  A run reaches the Archivist condition of \<^verbatim>\<open>runRun\<close> (line 176): no construction error
  and one signer, the output file opens, the attestation run, the marshalling and the
  write succeed, and the Rekor block is skipped or succeeds. No field of
  \<^verbatim>\<open>ArchivistOptions\<close> is read on the way.
\<close>

definition reachesArchivist :: "world \<Rightarrow> RunOptions \<Rightarrow> string list \<Rightarrow> bool" where
  "reachesArchivist w ro args =
     (case loadSigners w (KeyOptions ro) of
        (signers, errors) \<Rightarrow>
          errors = [] \<and> length signers = 1 \<and> loadOutfile w (OutFilePath ro) = None \<and>
          (case witnessRun w (StepName ro) (signers ! 0) (Tracing ro) args (Attestations ro)
                  (WorkingDir ro) of
             Inl err \<Rightarrow> False
           | Inr result \<Rightarrow>
               (case jsonMarshal w (SignedEnvelope result) of
                  Inl err \<Rightarrow> False
                | Inr signedBytes \<Rightarrow>
                    outWrite w signedBytes = None \<and>
                    (RekorServer ro = [] \<or>
                     fst (runRun_rekor w (RekorServer ro) (signers ! 0) signedBytes) = None))))"

section \<open>Concrete collaborators\<close>

text \<open>
  A world in which every collaborator succeeds, and options that name a step and both
  publishing endpoints.
\<close>

definition okWorld :: world where
  "okWorld =
     \<lparr>loadSigners = (\<lambda>ko. ([Signer ''key-a''], [])),
      loadOutfile = (\<lambda>path. None),
      outWrite = (\<lambda>bs. None),
      witnessRun = (\<lambda>step signer tracing args attestors dir.
        Inr \<lparr>SignedEnvelope =
          Envelope [1, 2, 3] ''application/vnd.in-toto+json'' [(''key-a'', [9])]\<rparr>),
      jsonMarshal = (\<lambda>env. Inr [123, 125]),
      signerVerifier = (\<lambda>signer. Inr (Verifier ''key-a'')),
      verifierBytes = (\<lambda>verifier. Inr [4, 5]),
      rekorNew = (\<lambda>server. None),
      rekorStoreArtifact = (\<lambda>server signedBytes pubKeyBytes. Inr ''/api/v1/log/entries/7''),
      grpcDial = (\<lambda>server. None),
      clientStore = None,
      streamSend = (\<lambda>sent c. None),
      streamCloseAndRecv = (\<lambda>sent. Inr ''gitoid:blob:sha256:ab'')\<rparr>"

definition bothOptions :: RunOptions where
  "bothOptions =
     \<lparr>KeyOptions = KeySources [''a.pem'', ''b.pem'', ''c.pem''],
      ArchivistOptions = \<lparr>Enable = False, Server = ''archivist:8080''\<rparr>,
      WorkingDir = [],
      Attestations = [''environment'', ''git''],
      OutFilePath = ''out.json'',
      StepName = ''build'',
      Tracing = False,
      TimestampServers = [],
      RekorServer = ''https://rekor''\<rparr>"

text \<open>
  Three configured key sources of which two fail to load and one gives a signer; no
  source gives a signer and one fails; two sources give signers; no source at all; an
  output path that cannot be opened.
\<close>

definition twoFailWorld :: world where
  "twoFailWorld =
     okWorld\<lparr>loadSigners := (\<lambda>ko.
       ([Signer ''key-c''],
        [Opaque ''failed to open key file a.pem'', Opaque ''failed to parse key b.pem'']))\<rparr>"

definition noKeyWorld :: world where
  "noKeyWorld = okWorld\<lparr>loadSigners := (\<lambda>ko. ([], [Opaque ''failed to open key file a.pem'']))\<rparr>"

definition twoSignerWorld :: world where
  "twoSignerWorld = okWorld\<lparr>loadSigners := (\<lambda>ko. ([Signer ''key-a'', Signer ''key-b''], []))\<rparr>"

definition noSourceWorld :: world where
  "noSourceWorld = okWorld\<lparr>loadSigners := (\<lambda>ko. ([], []))\<rparr>"

definition badPathWorld :: world where
  "badPathWorld = okWorld\<lparr>loadOutfile := (\<lambda>path. Some (Opaque ''no such file or directory''))\<rparr>"

text \<open>
  A transparency log that refuses the submission; an artifact store that fails at
  \<^verbatim>\<open>CloseAndRecv\<close>; options with no publishing endpoint and the Archivist flag set.
\<close>

definition rekorFailWorld :: world where
  "rekorFailWorld =
     okWorld\<lparr>rekorStoreArtifact := (\<lambda>server signedBytes pubKeyBytes.
       Inl (Opaque ''connection refused''))\<rparr>"

definition archivistFailWorld :: world where
  "archivistFailWorld = okWorld\<lparr>streamCloseAndRecv := (\<lambda>sent. Inl (Opaque ''unavailable''))\<rparr>"

definition localOptions :: RunOptions where
  "localOptions =
     bothOptions\<lparr>RekorServer := [], ArchivistOptions := \<lparr>Enable = True, Server = []\<rparr>\<rparr>"

section \<open>Properties of the chunked upload\<close>

lemma framesSent_append: "framesSent (xs @ ys) = framesSent xs @ framesSent ys"
  by (induction xs rule: framesSent.induct) simp_all

lemma framesSent_map_StreamSend: "framesSent (map StreamSend fs) = fs"
  by (induction fs) simp_all

lemma chunkSize_pos: "0 < chunkSize"
  by (simp add: chunkSize_def)

lemma ceil_div_small:
  fixes r c :: nat
  assumes "0 < r" and "r \<le> c"
  shows "(r + c - 1) div c = 1"
proof -
  have "r + c - 1 = (r - 1) + c" using assms by simp
  moreover have "(r - 1) div c = 0" using assms by simp
  ultimately show ?thesis using assms by (simp only: div_add_self2)
qed

lemma ceil_div_step:
  fixes r c :: nat
  assumes "0 < c" and "c < r"
  shows "(r + c - 1) div c = (r - c + c - 1) div c + 1"
proof -
  have "r + c - 1 = (r - 1) + c" using assms by simp
  moreover have "r - c + c - 1 = r - 1" using assms by simp
  ultimately show ?thesis using assms by (simp only: div_add_self2)
qed

lemma sendLoop_done: "\<not> cur < length bs \<Longrightarrow> sendLoop w bs cur sent = (None, sent)"
  by (subst sendLoop.simps) simp

lemma sendLoop_step:
  assumes "\<And>sent c. streamSend w sent c = None" and "cur < length bs"
  shows "sendLoop w bs cur sent =
    sendLoop w bs (cur + chunkSize)
      (sent @ [if cur + chunkSize \<ge> length bs then drop cur bs else take chunkSize (drop cur bs)])"
  using assms by (subst sendLoop.simps) (simp add: Let_def)

lemma sendLoop_final:
  assumes ok: "\<And>sent c. streamSend w sent c = None"
    and "cur < length bs" and "length bs \<le> cur + chunkSize"
  shows "sendLoop w bs cur sent = (None, sent @ [drop cur bs])"
proof -
  have "\<not> cur + chunkSize < length bs" using assms(3) by simp
  from sendLoop_done[OF this] show ?thesis
    using assms(3) by (simp only: sendLoop_step[OF ok assms(2)] if_True)
qed

lemma sendLoop_fst_ok:
  assumes ok: "\<And>sent c. streamSend w sent c = None"
  shows "fst (sendLoop w bs cur sent) = None"
proof (induction "length bs - cur" arbitrary: cur sent rule: less_induct)
  case less
  show ?case
  proof (cases "cur < length bs")
    case True
    then have "length bs - (cur + chunkSize) < length bs - cur" using chunkSize_pos by simp
    from less[OF this] show ?thesis by (simp only: sendLoop_step[OF ok True])
  next
    case False
    then show ?thesis by (simp add: sendLoop_done)
  qed
qed

lemma sendLoop_concat:
  assumes ok: "\<And>sent c. streamSend w sent c = None"
  shows "concat (snd (sendLoop w bs cur sent)) = concat sent @ drop cur bs"
proof (induction "length bs - cur" arbitrary: cur sent rule: less_induct)
  case less
  show ?case
  proof (cases "cur < length bs")
    case True
    then have d: "length bs - (cur + chunkSize) < length bs - cur" using chunkSize_pos by simp
    show ?thesis
    proof (cases "length bs \<le> cur + chunkSize")
      case fin: True
      show ?thesis by (simp only: sendLoop_final[OF ok True fin]) simp
    next
      case False
      have "take chunkSize (drop cur bs) @ drop (cur + chunkSize) bs = drop cur bs"
        by (metis add.commute append_take_drop_id drop_drop)
      with less[OF d] False show ?thesis
        by (simp only: sendLoop_step[OF ok True]) simp
    qed
  next
    case False
    then show ?thesis by (simp add: sendLoop_done)
  qed
qed

lemma sendLoop_bound:
  assumes ok: "\<And>sent c. streamSend w sent c = None"
  shows "\<forall>f\<in>set sent. length f \<le> chunkSize \<Longrightarrow>
    \<forall>f\<in>set (snd (sendLoop w bs cur sent)). length f \<le> chunkSize"
proof (induction "length bs - cur" arbitrary: cur sent rule: less_induct)
  case less
  show ?case
  proof (cases "cur < length bs")
    case True
    then have d: "length bs - (cur + chunkSize) < length bs - cur" using chunkSize_pos by simp
    have "\<forall>f\<in>set (sent @ [if cur + chunkSize \<ge> length bs then drop cur bs
        else take chunkSize (drop cur bs)]). length f \<le> chunkSize"
      using less(2) by auto
    from less(1)[OF d this] show ?thesis
      by (simp only: sendLoop_step[OF ok True])
  next
    case False
    with less(2) show ?thesis by (simp add: sendLoop_done)
  qed
qed

lemma sendLoop_count:
  assumes ok: "\<And>sent c. streamSend w sent c = None"
  shows "length (snd (sendLoop w bs cur sent)) =
    length sent + (length bs - cur + chunkSize - 1) div chunkSize"
proof (induction "length bs - cur" arbitrary: cur sent rule: less_induct)
  case less
  show ?case
  proof (cases "cur < length bs")
    case True
    then have d: "length bs - (cur + chunkSize) < length bs - cur"
      using chunkSize_pos by simp
    show ?thesis
    proof (cases "cur + chunkSize \<ge> length bs")
      case fin: True
      have "(length bs - cur + chunkSize - 1) div chunkSize = 1"
        by (rule ceil_div_small) (use fin True in simp_all)
      then show ?thesis
        by (simp only: sendLoop_final[OF ok True fin] snd_conv length_append list.size)
    next
      case False
      then have "chunkSize < length bs - cur" by simp
      from ceil_div_step[OF chunkSize_pos this]
      have "(length bs - cur + chunkSize - 1) div chunkSize =
          (length bs - (cur + chunkSize) + chunkSize - 1) div chunkSize + 1"
        by simp
      with less[OF d] show ?thesis
        by (simp only: sendLoop_step[OF ok True]) simp
    qed
  next
    case False
    then have "length bs - cur + chunkSize - 1 < chunkSize" using chunkSize_pos by simp
    then have "(length bs - cur + chunkSize - 1) div chunkSize = 0" by simp
    with False show ?thesis by (simp add: sendLoop_done)
  qed
qed

lemma sendLoop_last:
  assumes ok: "\<And>sent c. streamSend w sent c = None"
  shows "cur < length bs \<Longrightarrow>
    length (last (snd (sendLoop w bs cur sent))) = (length bs - cur - 1) mod chunkSize + 1"
proof (induction "length bs - cur" arbitrary: cur sent rule: less_induct)
  case less
  have d: "length bs - (cur + chunkSize) < length bs - cur" using less(2) using chunkSize_pos by simp
  show ?case
  proof (cases "cur + chunkSize \<ge> length bs")
    case True
    then have "(length bs - cur - 1) mod chunkSize = length bs - cur - 1"
      using less(2) using chunkSize_pos by simp
    with True less(2) show ?thesis
      by (simp add: sendLoop_step[OF ok less(2)] sendLoop_done)
  next
    case False
    then have lt: "cur + chunkSize < length bs" by simp
    have "length bs - cur - 1 = (length bs - (cur + chunkSize) - 1) + chunkSize"
      using lt by simp
    then have "(length bs - cur - 1) mod chunkSize = (length bs - (cur + chunkSize) - 1) mod chunkSize"
      by (metis mod_add_self2)
    with less(1)[OF d lt] show ?thesis
      by (simp add: sendLoop_step[OF ok less(2)])
  qed
qed

lemma storeInArchivist_frames:
  assumes dial: "grpcDial w (Server opts) = None"
    and ok: "\<And>sent c. streamSend w sent c = None"
  shows "framesSent (snd (storeInArchivist w opts bs)) = snd (sendLoop w bs 0 [])"
proof -
  obtain sent where s: "sendLoop w bs 0 [] = (None, sent)"
    using sendLoop_fst_ok[OF ok, of bs 0 "[]"] by (cases "sendLoop w bs 0 []") simp
  show ?thesis
    using dial s
    by (simp add: storeInArchivist_def Let_def framesSent_append framesSent_map_StreamSend
        split: sum.splits)
qed

lemma remainder_length:
  fixes L c :: nat
  assumes "0 < L" and "0 < c"
  shows "(L - 1) mod c + 1 = (if L mod c = 0 then c else L mod c)"
proof -
  obtain k where k: "L = Suc k" using assms(1) by (cases L) simp_all
  show ?thesis
    unfolding k using assms(2) by (simp add: mod_Suc)
qed

text \<open>
  Claim C4. When the connection opens and every \<^verbatim>\<open>Send\<close> succeeds, the frames handed to
  the stream, in the order sent, concatenate to the bytes given to \<^verbatim>\<open>storeInArchivist\<close>;
  each frame has at most 65536 bytes; there are \<open>ceil (L / 65536)\<close> frames for \<open>L\<close> bytes,
  none when \<open>L = 0\<close>; and the last frame has \<open>L mod 65536\<close> bytes, or 65536 when that
  is zero.
\<close>

theorem chunk_partition_roundtrip:
  assumes dial: "grpcDial w (Server opts) = None"
    and ok: "\<forall>sent c. streamSend w sent c = None"
  shows "concat (framesSent (snd (storeInArchivist w opts bs))) = bs \<and>
    (\<forall>f \<in> set (framesSent (snd (storeInArchivist w opts bs))). length f \<le> 65536) \<and>
    length (framesSent (snd (storeInArchivist w opts bs))) = (length bs + 65535) div 65536 \<and>
    (bs = [] \<longrightarrow> framesSent (snd (storeInArchivist w opts bs)) = []) \<and>
    (bs \<noteq> [] \<longrightarrow>
       length (last (framesSent (snd (storeInArchivist w opts bs)))) =
         (if length bs mod 65536 = 0 then 65536 else length bs mod 65536))"
proof -
  have ok': "\<And>sent c. streamSend w sent c = None" using ok by simp
  have cs: "chunkSize = 65536" by (simp add: chunkSize_def)
  let ?fs = "framesSent (snd (storeInArchivist w opts bs))"
  have fs: "?fs = snd (sendLoop w bs 0 [])"
    by (rule storeInArchivist_frames[OF dial ok'])
  have c1: "concat ?fs = bs"
    unfolding fs using sendLoop_concat[OF ok', of bs 0 "[]"] by simp
  have c2: "\<forall>f \<in> set ?fs. length f \<le> 65536"
    unfolding fs using sendLoop_bound[OF ok', of "[]" bs 0] by (simp add: cs)
  have c3: "length ?fs = (length bs + 65535) div 65536"
    unfolding fs using sendLoop_count[OF ok', of bs 0 "[]"] by (simp add: cs)
  have c4: "bs = [] \<longrightarrow> ?fs = []"
    unfolding fs by (simp add: sendLoop_done)
  have c5: "bs \<noteq> [] \<longrightarrow> length (last ?fs) =
      (if length bs mod 65536 = 0 then 65536 else length bs mod 65536)"
  proof
    assume ne: "bs \<noteq> []"
    then have pos: "0 < length bs" by simp
    have "length (last ?fs) = (length bs - 0 - 1) mod chunkSize + 1"
      unfolding fs by (rule sendLoop_last[OF ok' pos])
    also have "\<dots> = (if length bs mod chunkSize = 0 then chunkSize else length bs mod chunkSize)"
      using remainder_length[OF pos chunkSize_pos] by simp
    finally show "length (last ?fs) =
      (if length bs mod 65536 = 0 then 65536 else length bs mod 65536)"
      by (simp only: cs)
  qed
  from c1 c2 c3 c4 c5 show ?thesis by blast
qed

text \<open>The theorem at a run of \<open>okWorld\<close> on three bytes: one frame, the three bytes.\<close>

theorem chunk_partition_roundtrip_witness:
  "grpcDial okWorld (Server (ArchivistOptions bothOptions)) = None \<and>
   (\<forall>sent c. streamSend okWorld sent c = None) \<and>
   concat (framesSent (snd (storeInArchivist okWorld (ArchivistOptions bothOptions) [104, 105, 33])))
     = [104, 105, 33] \<and>
   length (framesSent (snd (storeInArchivist okWorld (ArchivistOptions bothOptions) [104, 105, 33])))
     = 1"
  using chunk_partition_roundtrip[of okWorld "ArchivistOptions bothOptions" "[104, 105, 33]"]
  by (simp add: okWorld_def)

text \<open>
  Claim C7. On an empty payload, once the connection is dialled, the upload opens the
  stream, sends no frame, closes the stream and receives the response: the calls are
  \<^verbatim>\<open>grpc.Dial\<close>, \<^verbatim>\<open>NewCollectorClient\<close>, \<^verbatim>\<open>client.Store\<close>, \<^verbatim>\<open>CloseAndRecv\<close>, and the result is
  the outcome of \<^verbatim>\<open>CloseAndRecv\<close> after no frame; the loop adds no error of its own.
\<close>

theorem empty_payload_upload:
  assumes "grpcDial w (Server opts) = None"
  shows "storeInArchivist w opts [] =
    (streamCloseAndRecv w [],
     [GrpcDial (Server opts), NewCollectorClient, ClientStore, StreamCloseAndRecv])"
  using assms by (simp add: storeInArchivist_def Let_def sendLoop_done split: sum.splits)

text \<open>The theorem in \<open>okWorld\<close>: the empty upload returns the identifier of the store.\<close>

theorem empty_payload_upload_witness:
  "grpcDial okWorld (Server (ArchivistOptions bothOptions)) = None \<and>
   storeInArchivist okWorld (ArchivistOptions bothOptions) [] =
     (Inr ''gitoid:blob:sha256:ab'',
      [GrpcDial ''archivist:8080'', NewCollectorClient, ClientStore, StreamCloseAndRecv])"
  using empty_payload_upload[of okWorld "ArchivistOptions bothOptions"]
  by (simp add: okWorld_def bothOptions_def)

lemma sendLoop_clientStore:
  "sendLoop (w\<lparr>clientStore := x\<rparr>) bs cur sent = sendLoop w bs cur sent"
proof (induction "length bs - cur" arbitrary: cur sent rule: less_induct)
  case less
  show ?case
  proof (cases "cur < length bs")
    case True
    then have d: "length bs - (cur + chunkSize) < length bs - cur" using chunkSize_pos by simp
    show ?thesis
      using True less[OF d]
      by (subst sendLoop.simps, subst (2) sendLoop.simps) (simp add: Let_def split: option.splits)
  next
    case False
    then show ?thesis by (simp add: sendLoop_done)
  qed
qed

lemma sendLoop_error_from_send:
  "fst (sendLoop w bs cur sent) = Some err \<Longrightarrow> \<exists>sent' c. streamSend w sent' c = Some err"
proof (induction "length bs - cur" arbitrary: cur sent rule: less_induct)
  case less
  show ?case
  proof (cases "cur < length bs")
    case True
    then have d: "length bs - (cur + chunkSize) < length bs - cur" using chunkSize_pos by simp
    let ?c = "if cur + chunkSize \<ge> length bs then drop cur bs else take chunkSize (drop cur bs)"
    show ?thesis
    proof (cases "streamSend w sent ?c")
      case None
      with True have "sendLoop w bs cur sent = sendLoop w bs (cur + chunkSize) (sent @ [?c])"
        by (subst sendLoop.simps) (simp add: Let_def)
      with less(2) have "fst (sendLoop w bs (cur + chunkSize) (sent @ [?c])) = Some err" by simp
      from less(1)[OF d this] show ?thesis .
    next
      case (Some e)
      with True have "sendLoop w bs cur sent = (Some e, sent @ [?c])"
        by (subst sendLoop.simps) (simp add: Let_def)
      with less(2) have "e = err" by simp
      with Some show ?thesis by blast
    qed
  next
    case False
    with less(2) show ?thesis by (simp add: sendLoop_done)
  qed
qed

lemma storeInArchivist_clientStore:
  "storeInArchivist (w\<lparr>clientStore := x\<rparr>) opts bs = storeInArchivist w opts bs"
  by (simp add: storeInArchivist_def Let_def sendLoop_clientStore
      split: option.splits prod.splits sum.splits)

lemma storeInArchivist_error_source:
  assumes dial: "grpcDial w (Server opts) = None"
    and res: "fst (storeInArchivist w opts bs) = Inl err"
  shows "(\<exists>sent c. streamSend w sent c = Some err) \<or>
    (\<exists>sent. streamCloseAndRecv w sent = Inl err)"
proof -
  obtain r sent where s: "sendLoop w bs 0 [] = (r, sent)" by (cases "sendLoop w bs 0 []")
  show ?thesis
  proof (cases r)
    case None
    with dial res s have "streamCloseAndRecv w sent = Inl err"
      by (simp add: storeInArchivist_def Let_def split: sum.splits)
    then show ?thesis by blast
  next
    case (Some e')
    with dial res s have "e' = err"
      by (simp add: storeInArchivist_def Let_def)
    with Some s have "fst (sendLoop w bs 0 []) = Some err" by simp
    from sendLoop_error_from_send[OF this] show ?thesis by blast
  qed
qed

text \<open>
  Claim C9. The error of \<^verbatim>\<open>client.Store\<close> is not examined: the result and the calls of
  \<^verbatim>\<open>storeInArchivist\<close> are the same whether opening the stream failed with \<open>e\<close> or
  succeeded. When the connection is dialled and opening failed, an error that the
  upload returns is one that a \<^verbatim>\<open>Send\<close> or \<^verbatim>\<open>CloseAndRecv\<close> returned.
\<close>

theorem stream_open_error_unchecked:
  "storeInArchivist (w\<lparr>clientStore := Some e\<rparr>) opts bs =
     storeInArchivist (w\<lparr>clientStore := None\<rparr>) opts bs \<and>
   (grpcDial w (Server opts) = None \<and>
    fst (storeInArchivist (w\<lparr>clientStore := Some e\<rparr>) opts bs) = Inl err \<longrightarrow>
      (\<exists>sent c. streamSend w sent c = Some err) \<or>
      (\<exists>sent. streamCloseAndRecv w sent = Inl err))"
  using storeInArchivist_error_source[of w opts bs err]
  by (simp add: storeInArchivist_clientStore)

text \<open>
  The theorem in a world where opening the stream fails and \<^verbatim>\<open>Send\<close> fails with another
  error: the upload returns the error of \<^verbatim>\<open>Send\<close>.
\<close>

theorem stream_open_error_unchecked_witness:
  "grpcDial (okWorld\<lparr>streamSend := (\<lambda>sent c. Some (Opaque ''EOF''))\<rparr>)
      (Server (ArchivistOptions bothOptions)) = None \<and>
   fst (storeInArchivist
      (okWorld\<lparr>streamSend := (\<lambda>sent c. Some (Opaque ''EOF'')),
               clientStore := Some (Opaque ''unavailable'')\<rparr>)
      (ArchivistOptions bothOptions) [7]) = Inl (Opaque ''EOF'') \<and>
   (\<exists>sent c. streamSend (okWorld\<lparr>streamSend := (\<lambda>sent c. Some (Opaque ''EOF''))\<rparr>) sent c
      = Some (Opaque ''EOF''))"
  using stream_open_error_unchecked[where w = "okWorld\<lparr>streamSend := (\<lambda>sent c. Some (Opaque ''EOF''))\<rparr>"
      and e = "Opaque ''unavailable''" and opts = "ArchivistOptions bothOptions" and bs = "[7]"
      and err = "Opaque ''EOF''"]
  by (simp add: okWorld_def bothOptions_def storeInArchivist_def Let_def sendLoop.simps)

section \<open>Properties of the run command\<close>

text \<open>
  Claim C1 says that with three sources of which two fail and one gives a signer the
  resolution succeeds. In \<open>twoFailWorld\<close> the run fails with
  \<^verbatim>\<open>failed to load signers\<close> after logging both errors and calls nothing else, while the
  same world without the two errors runs to success: the construction errors alone
  fail the run.
\<close>

theorem signer_errors_tolerated_counterexample:
  "loadSigners twoFailWorld (KeyOptions bothOptions) =
     ([Signer ''key-c''],
      [Opaque ''failed to open key file a.pem'', Opaque ''failed to parse key b.pem'']) \<and>
   runRun twoFailWorld bothOptions [''make''] =
     (Some (Errorf ''failed to load signers''),
      [LoadSigners (KeySources [''a.pem'', ''b.pem'', ''c.pem'']),
       LogError (Opaque ''failed to open key file a.pem''),
       LogError (Opaque ''failed to parse key b.pem'')]) \<and>
   fst (runRun (twoFailWorld\<lparr>loadSigners := (\<lambda>ko. ([Signer ''key-c''], []))\<rparr>) bothOptions
     [''make'']) = None"
  by (simp add: twoFailWorld_def okWorld_def bothOptions_def runRun_def runRun_publish_def
      runRun_rekor_def storeInArchivist_def Let_def sendLoop.simps chunkSize_def)

text \<open>
  Claim C1, amended. When \<^verbatim>\<open>loadSigners\<close> reports at least one construction error, every
  error is logged, in order, and the run fails with \<^verbatim>\<open>failed to load signers\<close>, whatever
  the number of signers that were constructed; nothing else is called.
\<close>

theorem signer_construction_errors_fail_run:
  assumes "loadSigners w (KeyOptions ro) = (signers, errors)" and "errors \<noteq> []"
  shows "runRun w ro args =
    (Some (Errorf ''failed to load signers''), LoadSigners (KeyOptions ro) # map LogError errors)"
  using assms by (simp add: runRun_def)

text \<open>
  The amended claim at three sources, two failures and one signer.
\<close>

theorem signer_construction_errors_fail_run_witness:
  "loadSigners twoFailWorld (KeyOptions bothOptions) =
     ([Signer ''key-c''],
      [Opaque ''failed to open key file a.pem'', Opaque ''failed to parse key b.pem'']) \<and>
   runRun twoFailWorld bothOptions [''make''] =
     (Some (Errorf ''failed to load signers''),
      LoadSigners (KeyOptions bothOptions) #
        map LogError
          [Opaque ''failed to open key file a.pem'', Opaque ''failed to parse key b.pem''])"
  using signer_construction_errors_fail_run[of twoFailWorld bothOptions "[Signer ''key-c'']"
      "[Opaque ''failed to open key file a.pem'', Opaque ''failed to parse key b.pem'']"
      "[''make'']"]
  by (simp add: twoFailWorld_def okWorld_def)

text \<open>
  Claim C3 says that every configuration that yields no signer fails with the no-signer
  error. In \<open>noKeyWorld\<close> the only source fails to load: no signer is constructed, and
  the run fails with \<^verbatim>\<open>failed to load signers\<close>, not with \<^verbatim>\<open>no signers found\<close>.
\<close>

theorem signer_cardinality_counterexample:
  "loadSigners noKeyWorld (KeyOptions bothOptions) = ([], [Opaque ''failed to open key file a.pem'']) \<and>
   fst (runRun noKeyWorld bothOptions [''make'']) = Some (Errorf ''failed to load signers'') \<and>
   fst (runRun noKeyWorld bothOptions [''make'']) \<noteq> Some (Errorf ''no signers found'')"
  by (simp add: noKeyWorld_def okWorld_def bothOptions_def runRun_def)

text \<open>
  Claim C3, amended. When \<^verbatim>\<open>loadSigners\<close> reports no construction error: with no signer
  the run fails with \<^verbatim>\<open>no signers found\<close>; with two or more it fails with
  \<^verbatim>\<open>only one signer is supported\<close>; with exactly one the run goes on with it, to the
  opening of the output file and, when that opens, to \<^verbatim>\<open>witness.Run\<close> called with that
  signer.
\<close>

theorem signer_cardinality:
  assumes "loadSigners w (KeyOptions ro) = (signers, [])"
  shows "(signers = [] \<longrightarrow>
      runRun w ro args =
        (Some (Errorf ''no signers found''),
         [LoadSigners (KeyOptions ro), LogErrorText ''no signers found''])) \<and>
    (2 \<le> length signers \<longrightarrow>
      runRun w ro args =
        (Some (Errorf ''only one signer is supported''),
         [LoadSigners (KeyOptions ro), LogErrorText ''only one signer is supported''])) \<and>
    (signers = [signer] \<and> loadOutfile w (OutFilePath ro) = Some err \<longrightarrow>
      runRun w ro args =
        (Some (Wrapf ''failed to open out file'' err),
         [LoadSigners (KeyOptions ro), LoadOutfile (OutFilePath ro)])) \<and>
    (signers = [signer] \<and> loadOutfile w (OutFilePath ro) = None \<longrightarrow>
      take 3 (snd (runRun w ro args)) =
        [LoadSigners (KeyOptions ro), LoadOutfile (OutFilePath ro),
         WitnessRun (StepName ro) signer (Tracing ro) args (Attestations ro) (WorkingDir ro)])"
  using assms
  by (auto simp add: runRun_def Let_def split: sum.splits option.splits prod.splits)

text \<open>
  The amended claim with no source, with two signers, with one signer and an output
  path that does not open, and with one signer in \<open>okWorld\<close>.
\<close>

theorem signer_cardinality_witness:
  "loadSigners noSourceWorld (KeyOptions bothOptions) = ([], []) \<and>
   fst (runRun noSourceWorld bothOptions [''make'']) = Some (Errorf ''no signers found'') \<and>
   loadSigners twoSignerWorld (KeyOptions bothOptions) = ([Signer ''key-a'', Signer ''key-b''], []) \<and>
   fst (runRun twoSignerWorld bothOptions [''make'']) = Some (Errorf ''only one signer is supported'') \<and>
   loadSigners badPathWorld (KeyOptions bothOptions) = ([Signer ''key-a''], []) \<and>
   loadOutfile badPathWorld (OutFilePath bothOptions) = Some (Opaque ''no such file or directory'') \<and>
   fst (runRun badPathWorld bothOptions [''make'']) =
     Some (Wrapf ''failed to open out file'' (Opaque ''no such file or directory'')) \<and>
   loadSigners okWorld (KeyOptions bothOptions) = ([Signer ''key-a''], []) \<and>
   loadOutfile okWorld (OutFilePath bothOptions) = None \<and>
   take 3 (snd (runRun okWorld bothOptions [''make''])) =
     [LoadSigners (KeyOptions bothOptions), LoadOutfile (OutFilePath bothOptions),
      WitnessRun (StepName bothOptions) (Signer ''key-a'') (Tracing bothOptions) [''make'']
        (Attestations bothOptions) (WorkingDir bothOptions)]"
  using signer_cardinality[of noSourceWorld bothOptions "[]" "[''make'']"]
    signer_cardinality[of twoSignerWorld bothOptions "[Signer ''key-a'', Signer ''key-b'']" "[''make'']"]
    signer_cardinality[of badPathWorld bothOptions "[Signer ''key-a'']" "[''make'']" "Signer ''key-a''"
      "Opaque ''no such file or directory''"]
    signer_cardinality[of okWorld bothOptions "[Signer ''key-a'']" "[''make'']" "Signer ''key-a''"]
  by (simp add: noSourceWorld_def twoSignerWorld_def badPathWorld_def okWorld_def)

lemma sinkContents_append: "sinkContents (xs @ ys) = sinkContents xs @ sinkContents ys"
  by (induction xs rule: sinkContents.induct) simp_all

lemma archivist_calls_no_write: "list_all isArchivistCall es \<Longrightarrow> sinkContents es = []"
  by (induction es rule: sinkContents.induct) simp_all

lemma list_all_StreamSend: "list_all isArchivistCall (map StreamSend fs)"
  by (induction fs) simp_all

lemma storeInArchivist_calls: "list_all isArchivistCall (snd (storeInArchivist w opts bs))"
  by (simp add: storeInArchivist_def Let_def list_all_StreamSend
      split: option.splits prod.splits sum.splits)

lemma storeInArchivist_dials: "list_ex isArchivistCall (snd (storeInArchivist w opts bs))"
  by (simp add: storeInArchivist_def Let_def split: option.splits prod.splits sum.splits)

lemma rekor_no_write: "sinkContents (snd (runRun_rekor w server signer bs)) = []"
  by (simp add: runRun_rekor_def split: option.splits sum.splits)

lemma rekor_no_archivist: "\<not> list_ex isArchivistCall (snd (runRun_rekor w server signer bs))"
  by (simp add: runRun_rekor_def split: option.splits sum.splits)

lemma rekor_error_wrapped:
  "fst (runRun_rekor w server signer bs) = Some err \<Longrightarrow>
    err \<noteq> Wrapf ''failed to store artifact in archivist'' cause"
  by (auto simp add: runRun_rekor_def split: option.splits sum.splits)

lemma publish_no_write: "sinkContents (snd (runRun_publish w ro signer bs)) = []"
  using archivist_calls_no_write[OF storeInArchivist_calls, of w "ArchivistOptions ro" bs]
    rekor_no_write[of w "RekorServer ro" signer bs]
  by (auto simp add: runRun_publish_def sinkContents_append
      split: option.splits prod.splits sum.splits if_splits)

lemma runRun_after_write:
  assumes "writesEnvelope w ro args signer signedBytes"
  shows "\<exists>result. witnessRun w (StepName ro) signer (Tracing ro) args (Attestations ro)
        (WorkingDir ro) = Inr result \<and>
      jsonMarshal w (SignedEnvelope result) = Inr signedBytes \<and>
      runRun w ro args =
        (fst (runRun_publish w ro signer signedBytes),
         [LoadSigners (KeyOptions ro), LoadOutfile (OutFilePath ro),
          WitnessRun (StepName ro) signer (Tracing ro) args (Attestations ro) (WorkingDir ro),
          JsonMarshal (SignedEnvelope result), OutWrite signedBytes]
         @ snd (runRun_publish w ro signer signedBytes) @ [OutClose])"
  using assms
  by (auto simp add: writesEnvelope_def runRun_def Let_def split: sum.splits prod.splits)

lemma logged_errors_no_call:
  "\<not> list_ex isNetworkCall (map LogError es)" "\<not> list_ex isWitnessRun (map LogError es)"
  by (induction es) (simp_all add: isNetworkCall_def)

text \<open>
  Claim C8. When signer resolution fails (a construction error, no signer, or more than
  one), the run fails and calls neither \<^verbatim>\<open>witness.Run\<close> nor the network. When the output
  path cannot be opened, the run fails before \<^verbatim>\<open>witness.Run\<close> and before any call to the
  transparency log or the artifact store.
\<close>

theorem configuration_errors_precede_calls:
  "(loadSigners w (KeyOptions ro) = (signers, errors) \<and> (errors \<noteq> [] \<or> length signers \<noteq> 1) \<longrightarrow>
      fst (runRun w ro args) \<noteq> None \<and>
      \<not> list_ex isWitnessRun (snd (runRun w ro args)) \<and>
      \<not> list_ex isNetworkCall (snd (runRun w ro args))) \<and>
   (loadOutfile w (OutFilePath ro) = Some err \<longrightarrow>
      fst (runRun w ro args) \<noteq> None \<and>
      \<not> list_ex isWitnessRun (snd (runRun w ro args)) \<and>
      \<not> list_ex isNetworkCall (snd (runRun w ro args)))"
proof -
  obtain ss es where l: "loadSigners w (KeyOptions ro) = (ss, es)"
    by (cases "loadSigners w (KeyOptions ro)")
  have a: "fst (runRun w ro args) \<noteq> None \<and>
      \<not> list_ex isWitnessRun (snd (runRun w ro args)) \<and>
      \<not> list_ex isNetworkCall (snd (runRun w ro args))"
    if bad: "es \<noteq> [] \<or> length ss \<noteq> 1"
  proof -
    consider "es \<noteq> []" | "es = []" "1 < length ss" | "es = []" "ss = []"
      using bad by (cases ss) auto
    then show ?thesis
      using l by cases (simp_all add: runRun_def logged_errors_no_call isNetworkCall_def)
  qed
  have b: "fst (runRun w ro args) \<noteq> None \<and>
      \<not> list_ex isWitnessRun (snd (runRun w ro args)) \<and>
      \<not> list_ex isNetworkCall (snd (runRun w ro args))"
    if out: "loadOutfile w (OutFilePath ro) = Some err"
  proof (cases "es \<noteq> [] \<or> length ss \<noteq> 1")
    case True
    then show ?thesis by (rule a)
  next
    case False
    then have "es = []" "\<not> 1 < length ss" "length ss \<noteq> 0" by auto
    then show ?thesis
      using l out by (simp add: runRun_def Let_def isNetworkCall_def)
  qed
  from a b l show ?thesis by auto
qed

text \<open>
  The theorem in a world with two signers and in a world whose output path does not
  open.
\<close>

theorem configuration_errors_precede_calls_witness:
  "loadSigners twoSignerWorld (KeyOptions bothOptions) = ([Signer ''key-a'', Signer ''key-b''], []) \<and>
   fst (runRun twoSignerWorld bothOptions [''make'']) \<noteq> None \<and>
   \<not> list_ex isWitnessRun (snd (runRun twoSignerWorld bothOptions [''make''])) \<and>
   loadOutfile badPathWorld (OutFilePath bothOptions) = Some (Opaque ''no such file or directory'') \<and>
   fst (runRun badPathWorld bothOptions [''make'']) \<noteq> None \<and>
   \<not> list_ex isNetworkCall (snd (runRun badPathWorld bothOptions [''make'']))"
  using configuration_errors_precede_calls[of twoSignerWorld bothOptions
      "[Signer ''key-a'', Signer ''key-b'']" "[]" "[''make'']"]
    configuration_errors_precede_calls[of badPathWorld bothOptions _ _ "[''make'']"
      "Opaque ''no such file or directory''"]
  by (simp add: twoSignerWorld_def badPathWorld_def okWorld_def)

text \<open>
  Claim C2 says that when both endpoints are configured and the submission to the
  transparency log fails, the upload to the artifact store is still attempted. In
  \<open>rekorFailWorld\<close>, with both endpoints configured, the run returns the Rekor error
  after \<^verbatim>\<open>StoreArtifact\<close> and closes the output: no call reaches the artifact store.
\<close>

theorem publishing_independent_counterexample:
  "RekorServer bothOptions \<noteq> [] \<and> Server (ArchivistOptions bothOptions) \<noteq> [] \<and>
   runRun rekorFailWorld bothOptions [''make''] =
     (Some (Wrapf ''failed to store artifact in rekor'' (Opaque ''connection refused'')),
      [LoadSigners (KeySources [''a.pem'', ''b.pem'', ''c.pem'']), LoadOutfile ''out.json'',
       WitnessRun ''build'' (Signer ''key-a'') False [''make''] [''environment'', ''git''] [],
       JsonMarshal (Envelope [1, 2, 3] ''application/vnd.in-toto+json'' [(''key-a'', [9])]),
       OutWrite [123, 125],
       SignerVerifier (Signer ''key-a''), VerifierBytes (Verifier ''key-a''),
       RekorNew ''https://rekor'', RekorStoreArtifact [123, 125] [4, 5],
       OutClose]) \<and>
   \<not> list_ex isArchivistCall (snd (runRun rekorFailWorld bothOptions [''make'']))"
  by (simp add: rekorFailWorld_def okWorld_def bothOptions_def runRun_def runRun_publish_def
      runRun_rekor_def Let_def)

text \<open>
  Claim C2, amended. After the envelope is written the two publishing steps run in
  order and the first failure ends the run. When the log endpoint is configured and
  the Rekor block fails, the run returns that error, which is not the Archivist
  error, and the artifact store is not called. When the Rekor block is skipped or
  succeeds and the store endpoint is configured, the upload is attempted, and the run
  returns its failure wrapped as \<^verbatim>\<open>failed to store artifact in archivist\<close>, or success.
\<close>

theorem publishing_short_circuits:
  assumes "writesEnvelope w ro args signer signedBytes"
  shows "(RekorServer ro \<noteq> [] \<and>
       fst (runRun_rekor w (RekorServer ro) signer signedBytes) = Some err \<longrightarrow>
         fst (runRun w ro args) = Some err \<and>
         err \<noteq> Wrapf ''failed to store artifact in archivist'' cause \<and>
         \<not> list_ex isArchivistCall (snd (runRun w ro args))) \<and>
    ((RekorServer ro = [] \<or> fst (runRun_rekor w (RekorServer ro) signer signedBytes) = None) \<and>
       Server (ArchivistOptions ro) \<noteq> [] \<longrightarrow>
         list_ex isArchivistCall (snd (runRun w ro args)) \<and>
         fst (runRun w ro args) =
           (case fst (storeInArchivist w (ArchivistOptions ro) signedBytes) of
              Inl e \<Rightarrow> Some (Wrapf ''failed to store artifact in archivist'' e)
            | Inr gitoid \<Rightarrow> None))"
proof -
  from runRun_after_write[OF assms] obtain result :: RunResult where
    r: "runRun w ro args =
        (fst (runRun_publish w ro signer signedBytes),
         [LoadSigners (KeyOptions ro), LoadOutfile (OutFilePath ro),
          WitnessRun (StepName ro) signer (Tracing ro) args (Attestations ro) (WorkingDir ro),
          JsonMarshal (SignedEnvelope result), OutWrite signedBytes]
         @ snd (runRun_publish w ro signer signedBytes) @ [OutClose])"
    by blast
  have a: "RekorServer ro \<noteq> [] \<Longrightarrow>
      fst (runRun_rekor w (RekorServer ro) signer signedBytes) = Some err \<Longrightarrow>
      fst (runRun_publish w ro signer signedBytes) = Some err \<and>
      \<not> list_ex isArchivistCall (snd (runRun_publish w ro signer signedBytes))"
    using rekor_no_archivist[of w "RekorServer ro" signer signedBytes]
    by (auto simp add: runRun_publish_def split: prod.splits option.splits)
  have b: "RekorServer ro = [] \<or> fst (runRun_rekor w (RekorServer ro) signer signedBytes) = None \<Longrightarrow>
      Server (ArchivistOptions ro) \<noteq> [] \<Longrightarrow>
      list_ex isArchivistCall (snd (runRun_publish w ro signer signedBytes)) \<and>
      fst (runRun_publish w ro signer signedBytes) =
        (case fst (storeInArchivist w (ArchivistOptions ro) signedBytes) of
           Inl e \<Rightarrow> Some (Wrapf ''failed to store artifact in archivist'' e)
         | Inr gitoid \<Rightarrow> None)"
    using storeInArchivist_dials[of w "ArchivistOptions ro" signedBytes]
    by (auto simp add: runRun_publish_def split: prod.splits option.splits sum.splits)
  show ?thesis
    using a b rekor_error_wrapped[of w "RekorServer ro" signer signedBytes err cause]
    by (auto simp add: r)
qed

text \<open>
  The amended claim where the log refuses the submission, and where the log accepts
  it and the store fails.
\<close>

theorem publishing_short_circuits_witness:
  "writesEnvelope rekorFailWorld bothOptions [''make''] (Signer ''key-a'') [123, 125] \<and>
   RekorServer bothOptions \<noteq> [] \<and>
   fst (runRun_rekor rekorFailWorld (RekorServer bothOptions) (Signer ''key-a'') [123, 125]) =
     Some (Wrapf ''failed to store artifact in rekor'' (Opaque ''connection refused'')) \<and>
   fst (runRun rekorFailWorld bothOptions [''make'']) =
     Some (Wrapf ''failed to store artifact in rekor'' (Opaque ''connection refused'')) \<and>
   \<not> list_ex isArchivistCall (snd (runRun rekorFailWorld bothOptions [''make''])) \<and>
   writesEnvelope archivistFailWorld bothOptions [''make''] (Signer ''key-a'') [123, 125] \<and>
   fst (runRun_rekor archivistFailWorld (RekorServer bothOptions) (Signer ''key-a'') [123, 125]) =
     None \<and>
   Server (ArchivistOptions bothOptions) \<noteq> [] \<and>
   list_ex isArchivistCall (snd (runRun archivistFailWorld bothOptions [''make''])) \<and>
   fst (runRun archivistFailWorld bothOptions [''make'']) =
     Some (Wrapf ''failed to store artifact in archivist'' (Opaque ''unavailable''))"
  using publishing_short_circuits[where w = rekorFailWorld and ro = bothOptions
      and args = "[''make'']" and signer = "Signer ''key-a''" and signedBytes = "[123, 125]"
      and err = "Wrapf ''failed to store artifact in rekor'' (Opaque ''connection refused'')"]
    publishing_short_circuits[where w = archivistFailWorld and ro = bothOptions
      and args = "[''make'']" and signer = "Signer ''key-a''" and signedBytes = "[123, 125]"]
  by (simp add: rekorFailWorld_def archivistFailWorld_def okWorld_def bothOptions_def
      writesEnvelope_def runRun_rekor_def storeInArchivist_def Let_def sendLoop.simps
      chunkSize_def)

lemma publish_fails:
  assumes "(RekorServer ro \<noteq> [] \<and>
        fst (runRun_rekor w (RekorServer ro) signer signedBytes) \<noteq> None) \<or>
      ((RekorServer ro = [] \<or> fst (runRun_rekor w (RekorServer ro) signer signedBytes) = None) \<and>
        Server (ArchivistOptions ro) \<noteq> [] \<and>
        isl (fst (storeInArchivist w (ArchivistOptions ro) signedBytes)))"
  shows "fst (runRun_publish w ro signer signedBytes) \<noteq> None"
  using assms
  by (auto simp add: runRun_publish_def split: prod.splits option.splits sum.splits)

text \<open>
  Claim C5. When the envelope was written and a publishing step that is attempted
  fails (the Rekor block, or the Archivist upload after a skipped or successful Rekor
  block), the run returns an error and the sink holds the serialized envelope: the
  write comes before every network call and nothing else writes to the sink.
\<close>

theorem publishing_failure_keeps_envelope:
  assumes wr: "writesEnvelope w ro args signer signedBytes"
    and fails: "(RekorServer ro \<noteq> [] \<and>
        fst (runRun_rekor w (RekorServer ro) signer signedBytes) \<noteq> None) \<or>
      ((RekorServer ro = [] \<or> fst (runRun_rekor w (RekorServer ro) signer signedBytes) = None) \<and>
        Server (ArchivistOptions ro) \<noteq> [] \<and>
        isl (fst (storeInArchivist w (ArchivistOptions ro) signedBytes)))"
  shows "fst (runRun w ro args) \<noteq> None \<and>
    sinkContents (snd (runRun w ro args)) = signedBytes \<and>
    (\<exists>before after. snd (runRun w ro args) = before @ OutWrite signedBytes # after \<and>
       \<not> list_ex isNetworkCall before \<and> sinkContents before = [] \<and> sinkContents after = [])"
proof -
  from runRun_after_write[OF wr] obtain result :: RunResult where
    r: "runRun w ro args =
        (fst (runRun_publish w ro signer signedBytes),
         [LoadSigners (KeyOptions ro), LoadOutfile (OutFilePath ro),
          WitnessRun (StepName ro) signer (Tracing ro) args (Attestations ro) (WorkingDir ro),
          JsonMarshal (SignedEnvelope result), OutWrite signedBytes]
         @ snd (runRun_publish w ro signer signedBytes) @ [OutClose])"
    by blast
  let ?before = "[LoadSigners (KeyOptions ro), LoadOutfile (OutFilePath ro),
          WitnessRun (StepName ro) signer (Tracing ro) args (Attestations ro) (WorkingDir ro),
          JsonMarshal (SignedEnvelope result)]"
  let ?after = "snd (runRun_publish w ro signer signedBytes) @ [OutClose]"
  have 1: "fst (runRun w ro args) \<noteq> None"
    using publish_fails[OF fails] by (simp add: r)
  have 2: "sinkContents (snd (runRun w ro args)) = signedBytes"
    by (simp add: r sinkContents_append publish_no_write)
  have 3: "snd (runRun w ro args) = ?before @ OutWrite signedBytes # ?after"
    by (simp add: r)
  have 4: "\<not> list_ex isNetworkCall ?before" by (simp add: isNetworkCall_def)
  have 5: "sinkContents ?before = []" by simp
  have 6: "sinkContents ?after = []" by (simp add: sinkContents_append publish_no_write)
  from 3 4 5 6 have "\<exists>before after. snd (runRun w ro args) = before @ OutWrite signedBytes # after \<and>
       \<not> list_ex isNetworkCall before \<and> sinkContents before = [] \<and> sinkContents after = []"
    by blast
  with 1 2 show ?thesis by blast
qed

text \<open>
  The theorem where the log refuses the submission and where the store fails.
\<close>

theorem publishing_failure_keeps_envelope_witness:
  "writesEnvelope rekorFailWorld bothOptions [''make''] (Signer ''key-a'') [123, 125] \<and>
   RekorServer bothOptions \<noteq> [] \<and>
   fst (runRun_rekor rekorFailWorld (RekorServer bothOptions) (Signer ''key-a'') [123, 125]) \<noteq> None \<and>
   fst (runRun rekorFailWorld bothOptions [''make'']) \<noteq> None \<and>
   sinkContents (snd (runRun rekorFailWorld bothOptions [''make''])) = [123, 125] \<and>
   writesEnvelope archivistFailWorld bothOptions [''make''] (Signer ''key-a'') [123, 125] \<and>
   fst (runRun_rekor archivistFailWorld (RekorServer bothOptions) (Signer ''key-a'') [123, 125]) =
     None \<and>
   Server (ArchivistOptions bothOptions) \<noteq> [] \<and>
   isl (fst (storeInArchivist archivistFailWorld (ArchivistOptions bothOptions) [123, 125])) \<and>
   fst (runRun archivistFailWorld bothOptions [''make'']) \<noteq> None \<and>
   sinkContents (snd (runRun archivistFailWorld bothOptions [''make''])) = [123, 125]"
  using publishing_failure_keeps_envelope[where w = rekorFailWorld and ro = bothOptions
      and args = "[''make'']" and signer = "Signer ''key-a''" and signedBytes = "[123, 125]"]
    publishing_failure_keeps_envelope[where w = archivistFailWorld and ro = bothOptions
      and args = "[''make'']" and signer = "Signer ''key-a''" and signedBytes = "[123, 125]"]
  by (simp add: rekorFailWorld_def archivistFailWorld_def okWorld_def bothOptions_def
      writesEnvelope_def runRun_rekor_def storeInArchivist_def Let_def sendLoop.simps
      chunkSize_def)

text \<open>
  Claim C6. When no publishing endpoint is configured and the run writes the
  envelope, it returns \<^verbatim>\<open>nil\<close>, and the sink holds the bytes that \<^verbatim>\<open>json.Marshal\<close> gave
  for the signed envelope of the result, and nothing else; the calls are the loading
  of the signer, the opening of the output, the attestation run, the marshalling, the
  write and the close.
\<close>

theorem write_without_publishing:
  assumes wr: "writesEnvelope w ro args signer signedBytes"
    and "RekorServer ro = []" and "Server (ArchivistOptions ro) = []"
  shows "\<exists>result. witnessRun w (StepName ro) signer (Tracing ro) args (Attestations ro)
        (WorkingDir ro) = Inr result \<and>
      jsonMarshal w (SignedEnvelope result) = Inr signedBytes \<and>
      runRun w ro args =
        (None,
         [LoadSigners (KeyOptions ro), LoadOutfile (OutFilePath ro),
          WitnessRun (StepName ro) signer (Tracing ro) args (Attestations ro) (WorkingDir ro),
          JsonMarshal (SignedEnvelope result), OutWrite signedBytes, OutClose]) \<and>
      sinkContents (snd (runRun w ro args)) = signedBytes"
proof -
  have p: "runRun_publish w ro signer signedBytes = (None, [])"
    using assms(2,3) by (simp add: runRun_publish_def)
  from runRun_after_write[OF wr] show ?thesis
    by (auto simp add: p)
qed

text \<open>
  The theorem in \<open>okWorld\<close> with no endpoint.
\<close>

theorem write_without_publishing_witness:
  "writesEnvelope okWorld localOptions [''make''] (Signer ''key-a'') [123, 125] \<and>
   RekorServer localOptions = [] \<and> Server (ArchivistOptions localOptions) = [] \<and>
   fst (runRun okWorld localOptions [''make'']) = None \<and>
   sinkContents (snd (runRun okWorld localOptions [''make''])) = [123, 125]"
  using write_without_publishing[where w = okWorld and ro = localOptions
      and args = "[''make'']" and signer = "Signer ''key-a''" and signedBytes = "[123, 125]"]
  by (auto simp add: okWorld_def localOptions_def bothOptions_def writesEnvelope_def)

lemma storeInArchivist_Enable:
  "storeInArchivist w (opts\<lparr>Enable := b\<rparr>) bs = storeInArchivist w opts bs"
  by (simp add: storeInArchivist_def Let_def cong: option.case_cong)

lemma runRun_publish_Enable:
  "runRun_publish w (ro\<lparr>ArchivistOptions := (ArchivistOptions ro)\<lparr>Enable := b\<rparr>\<rparr>) signer bs =
    runRun_publish w ro signer bs"
  by (simp add: runRun_publish_def storeInArchivist_Enable cong: option.case_cong prod.case_cong if_cong)

lemma runRun_Enable:
  "runRun w (ro\<lparr>ArchivistOptions := (ArchivistOptions ro)\<lparr>Enable := b\<rparr>\<rparr>) args = runRun w ro args"
  by (simp add: runRun_def Let_def runRun_publish_Enable cong: option.case_cong prod.case_cong sum.case_cong if_cong)

lemma reachesArchivist_options:
  "reachesArchivist w (ro\<lparr>ArchivistOptions := opts\<rparr>) args = reachesArchivist w ro args"
  by (simp add: reachesArchivist_def cong: option.case_cong prod.case_cong sum.case_cong)

lemma publish_attempts_archivist:
  "list_ex isArchivistCall (snd (runRun_publish w ro signer bs)) =
    ((RekorServer ro = [] \<or> fst (runRun_rekor w (RekorServer ro) signer bs) = None) \<and>
     Server (ArchivistOptions ro) \<noteq> [])"
  using storeInArchivist_dials[of w "ArchivistOptions ro" bs]
    rekor_no_archivist[of w "RekorServer ro" signer bs]
  by (auto simp add: runRun_publish_def split: prod.splits option.splits sum.splits)

lemma logged_errors_no_archivist: "\<not> list_ex isArchivistCall (map LogError es)"
  by (induction es) simp_all

lemma runRun_attempts_archivist:
  "list_ex isArchivistCall (snd (runRun w ro args)) =
    (reachesArchivist w ro args \<and> Server (ArchivistOptions ro) \<noteq> [])"
proof -
  obtain ss es where l: "loadSigners w (KeyOptions ro) = (ss, es)"
    by (cases "loadSigners w (KeyOptions ro)")
  consider "es \<noteq> []" | "es = []" "1 < length ss" | "es = []" "ss = []"
    | "es = []" "length ss = 1"
    by (cases ss) auto
  then show ?thesis
  proof cases
    case 1
    then show ?thesis using l
      by (simp add: runRun_def reachesArchivist_def logged_errors_no_archivist)
  next
    case 2
    then show ?thesis using l by (simp add: runRun_def reachesArchivist_def)
  next
    case 3
    then show ?thesis using l by (simp add: runRun_def reachesArchivist_def)
  next
    case 4
    then show ?thesis using l
      by (auto simp add: runRun_def reachesArchivist_def Let_def case_prod_beta
          publish_attempts_archivist split: option.splits sum.splits)
  qed
qed

text \<open>
  Claim C10 says that, for every run configuration, the endpoint string alone decides
  whether the upload to the artifact store is attempted. In \<open>rekorFailWorld\<close> two
  configurations with the same non-empty store endpoint differ: with the log endpoint
  configured the Rekor block fails and the run returns before the Archivist
  condition, so the store is not called; with the log endpoint empty the store is
  called. Nor is it called, with that endpoint, when no signer is found.
\<close>

theorem archivist_endpoint_alone_counterexample:
  "Server (ArchivistOptions bothOptions) \<noteq> [] \<and>
   Server (ArchivistOptions (bothOptions\<lparr>RekorServer := []\<rparr>)) =
     Server (ArchivistOptions bothOptions) \<and>
   \<not> list_ex isArchivistCall (snd (runRun rekorFailWorld bothOptions [''make''])) \<and>
   list_ex isArchivistCall
     (snd (runRun rekorFailWorld (bothOptions\<lparr>RekorServer := []\<rparr>) [''make''])) \<and>
   \<not> list_ex isArchivistCall (snd (runRun noSourceWorld bothOptions [''make'']))"
  by (simp add: rekorFailWorld_def noSourceWorld_def okWorld_def bothOptions_def runRun_def
      runRun_publish_def runRun_rekor_def storeInArchivist_def Let_def sendLoop.simps
      chunkSize_def)

text \<open>
  Claim C10, amended. The \<^verbatim>\<open>Enable\<close> flag of \<^verbatim>\<open>ArchivistOptions\<close> is not read: a run with
  the flag changed has the same result and the same calls. Whether a run reaches the
  Archivist condition does not depend on \<^verbatim>\<open>ArchivistOptions\<close>, and the artifact store is
  called exactly when the run reaches that condition and the endpoint string is not
  empty.
\<close>

theorem archivist_enable_flag_unread:
  "runRun w (ro\<lparr>ArchivistOptions := (ArchivistOptions ro)\<lparr>Enable := b\<rparr>\<rparr>) args = runRun w ro args \<and>
   reachesArchivist w (ro\<lparr>ArchivistOptions := opts\<rparr>) args = reachesArchivist w ro args \<and>
   list_ex isArchivistCall (snd (runRun w ro args)) =
     (reachesArchivist w ro args \<and> Server (ArchivistOptions ro) \<noteq> [])"
  by (simp add: runRun_Enable reachesArchivist_options runRun_attempts_archivist)

text \<open>
  The theorem in \<open>okWorld\<close>: with the flag set and no endpoint the store is not called,
  with the flag unset and an endpoint it is.
\<close>

theorem archivist_enable_flag_unread_witness:
  "runRun okWorld (localOptions\<lparr>ArchivistOptions := (ArchivistOptions localOptions)\<lparr>Enable := False\<rparr>\<rparr>)
      [''make''] = runRun okWorld localOptions [''make''] \<and>
   Enable (ArchivistOptions localOptions) \<and>
   reachesArchivist okWorld localOptions [''make''] \<and>
   \<not> list_ex isArchivistCall (snd (runRun okWorld localOptions [''make''])) \<and>
   \<not> Enable (ArchivistOptions bothOptions) \<and>
   list_ex isArchivistCall (snd (runRun okWorld bothOptions [''make'']))"
  using archivist_enable_flag_unread[where w = okWorld and ro = localOptions
      and args = "[''make'']" and b = False]
    archivist_enable_flag_unread[where w = okWorld and ro = bothOptions and args = "[''make'']"]
  by (simp add: okWorld_def localOptions_def bothOptions_def reachesArchivist_def
      runRun_rekor_def)

end
